theory Spec2Isabelle
  imports Main "HOL-Library.Word" "HOL-Library.Signed_Division"
begin

section \<open>The JVMCI compiler object of HotSpot (jvmciCompiler.cpp)\<close>

text \<open>
  A shallow embedding of \<^verbatim>\<open>src/hotspot/share/jvmci/jvmciCompiler.cpp\<close>. Every member
  function of \<^verbatim>\<open>JVMCICompiler\<close> becomes a HOL function over the fields of the object;
  what the file reaches outside itself (VM flags, the compile broker, the JVMCI runtime,
  the other threads of the VM) is a parameter of the model.
\<close>

subsection \<open>Values\<close>

text \<open>
  An \<^verbatim>\<open>oop\<close> is a reference to a Java object; the code only compares references.
  A C++ \<^verbatim>\<open>int\<close> is a 32-bit word and a \<^verbatim>\<open>jlong\<close> a 64-bit word.
\<close>

type_synonym oop = nat
type_synonym jint = "32 word"
type_synonym jlong = "64 word"
type_synonym exception = string

text \<open>The ways in which the VM stops instead of returning from a call.\<close>

datatype vm_error =
    Should_not_reach_here
  | Assertion_failed string
  | Null_dereference

text \<open>\<^verbatim>\<open>Arguments::Mode\<close>, \<^verbatim>\<open>CompLevel\<close> and \<^verbatim>\<open>CompileTask::CompileReason\<close>.\<close>

datatype Mode = Mode_int | Mode_mixed | Mode_comp

datatype CompLevel =
    CompLevel_any
  | CompLevel_none
  | CompLevel_simple
  | CompLevel_limited_profile
  | CompLevel_full_profile
  | CompLevel_full_optimization

datatype CompileReason =
    Reason_None
  | Reason_InvocationCount
  | Reason_BackedgeCount
  | Reason_Tiered
  | Reason_CTW
  | Reason_Replay
  | Reason_Whitebox
  | Reason_MustBeCompiled
  | Reason_Bootstrap

definition InvocationEntryBci :: int where
  "InvocationEntryBci = - 1"

text \<open>
  A method, as far as this file looks at it: three predicates, and the path
  \<^verbatim>\<open>method->method_holder()->module()->module()\<close> to the \<^verbatim>\<open>java.lang.Module\<close> object of
  the class that declares it.
\<close>

record ModuleEntry =
  module_oop :: oop

record InstanceKlass =
  klass_module :: ModuleEntry

record Method =
  method_id :: nat
  is_native :: bool
  is_static :: bool
  is_initializer :: bool
  method_holder :: InstanceKlass

text \<open>The arguments of one call of \<^verbatim>\<open>CompileBroker::compile_method\<close>.\<close>

record CompileTask =
  task_method :: Method
  osr_bci :: int
  comp_level :: CompLevel
  hot_method :: Method
  hot_count :: jint
  compile_reason :: CompileReason

text \<open>What is written to \<^verbatim>\<open>tty\<close>; the summary line keeps its two arguments.\<close>

datatype tty_event =
    Print string
  | Print_raw string
  | Print_summary jlong jint

subsection \<open>The object\<close>

text \<open>
  Modelled from the spec: the life-cycle state that \<^verbatim>\<open>JVMCICompiler\<close> inherits from
  \<^verbatim>\<open>AbstractCompiler\<close> (abstractCompiler.hpp is not among the sources). The spec gives
  it two values, with a one-way transition from the first to the second.
\<close>

datatype LifecycleState = uninitialized | initialized

text \<open>
  The fields. The two counters are printed with \<^verbatim>\<open>%d\<close> and compared with
  \<^verbatim>\<open>int z\<close> in \<^verbatim>\<open>bootstrap\<close>: they are C++ \<^verbatim>\<open>int\<close>s.
\<close>

record JVMCICompiler =
  compiler_state :: LifecycleState
  bootstrapping :: bool
  bootstrap_compilation_request_handled :: bool
  methods_compiled :: jint
  global_compilation_ticks :: jint

subsection \<open>Construction\<close>



subsection \<open>Initialization\<close>

record Flags =
  UseCompiler :: bool
  EnableJVMCI :: bool
  UseJVMCICompiler :: bool
  UseJVMCINativeLibrary :: bool
  PrintBootstrap :: bool
  mode :: Mode

text \<open>
  Modelled from the spec: \<^verbatim>\<open>AbstractCompiler::should_perform_init\<close> and
  \<^verbatim>\<open>AbstractCompiler::set_state\<close> (abstractCompiler.cpp is not among the sources). The
  spec calls the first an "already performed" check of the life-cycle state and the
  second the transition of that state.
\<close>

definition should_perform_init :: "JVMCICompiler \<Rightarrow> bool" where
  "should_perform_init c = (compiler_state c = uninitialized)"

definition set_state :: "LifecycleState \<Rightarrow> JVMCICompiler \<Rightarrow> JVMCICompiler" where
  "set_state st c = c\<lparr>compiler_state := st\<rparr>"

text \<open>
  The part of the VM that the member functions can change: the object itself, the
  compilation policy (which is told that VM startup is over), the requests made to the
  compile broker, the output stream, and the exception pending on the calling thread.
\<close>

record VM =
  compiler :: JVMCICompiler
  completed_vm_startup_calls :: nat
  compile_requests :: "CompileTask list"
  tty :: "tty_event list"
  pending_exception :: "exception option"

text \<open>
  Modelled from the spec: \<^verbatim>\<open>CompilationPolicy::completed_vm_startup\<close>
  (compilationPolicy.cpp is not among the sources) is a notification to the
  compilation-policy subsystem; the model counts the notifications received.
\<close>

definition completed_vm_startup :: "VM \<Rightarrow> VM" where
  "completed_vm_startup vm =
     vm\<lparr>completed_vm_startup_calls := Suc (completed_vm_startup_calls vm)\<rparr>"

definition initialize :: "Flags \<Rightarrow> VM \<Rightarrow> VM" where
  "initialize fl vm =
     (if \<not> UseCompiler fl \<or> \<not> EnableJVMCI fl \<or> \<not> UseJVMCICompiler fl
           \<or> \<not> should_perform_init (compiler vm)
      then vm
      else completed_vm_startup (vm\<lparr>compiler := set_state initialized (compiler vm)\<rparr>))"

text \<open>
  \<open>n\<close> calls in a row, and the number of those calls that changed the life-cycle state.
\<close>

fun initialize_times :: "nat \<Rightarrow> Flags \<Rightarrow> VM \<Rightarrow> VM" where
  "initialize_times 0 fl vm = vm"
| "initialize_times (Suc n) fl vm = initialize_times n fl (initialize fl vm)"

fun transitions :: "nat \<Rightarrow> Flags \<Rightarrow> VM \<Rightarrow> nat" where
  "transitions 0 fl vm = 0"
| "transitions (Suc n) fl vm =
     (if compiler_state (compiler (initialize fl vm)) \<noteq> compiler_state (compiler vm)
      then 1 else 0) + transitions n fl (initialize fl vm)"

subsection \<open>Counters\<close>

text \<open>\<^verbatim>\<open>Atomic::inc\<close> adds one to an \<^verbatim>\<open>int\<close> in memory; the addition wraps around.\<close>

definition inc_methods_compiled :: "JVMCICompiler \<Rightarrow> JVMCICompiler" where
  "inc_methods_compiled c =
     (let c1 = c\<lparr>methods_compiled := methods_compiled c + 1\<rparr>
      in c1\<lparr>global_compilation_ticks := global_compilation_ticks c1 + 1\<rparr>)"

definition inc_global_compilation_ticks :: "JVMCICompiler \<Rightarrow> JVMCICompiler" where
  "inc_global_compilation_ticks c =
     c\<lparr>global_compilation_ticks := global_compilation_ticks c + 1\<rparr>"

subsection \<open>The forced-compilation policy\<close>

text \<open>
  The JVMCI runtime, as far as this file calls it. \<^verbatim>\<open>probe_HotSpotJVMCIRuntime\<close> gives a
  reference that may be null; \<^verbatim>\<open>excludeFromJVMCICompilation\<close> reads a field of that
  object, an array of module references that may be null; \<^verbatim>\<open>bootstrap_finished\<close> calls
  into Java and may leave an exception pending. It runs while the compiler object is in
  the state it is given.
\<close>

record JVMCIRuntime =
  probe_HotSpotJVMCIRuntime :: "oop option"
  excludeFromJVMCICompilation :: "oop \<Rightarrow> oop list option"
  bootstrap_finished :: "JVMCICompiler \<Rightarrow> exception option"

text \<open>The loop over the array: the first equal element ends it with \<^verbatim>\<open>true\<close>.\<close>

fun exclude_loop :: "oop list \<Rightarrow> oop \<Rightarrow> bool" where
  "exclude_loop [] m = False"
| "exclude_loop (x # xs) m = (if x = m then True else exclude_loop xs m)"

definition force_comp_at_level_simple ::
  "Flags \<Rightarrow> JVMCIRuntime option \<Rightarrow> JVMCICompiler \<Rightarrow> Method \<Rightarrow> bool" where
  "force_comp_at_level_simple fl java_runtime c method =
     (if bootstrapping c then False
      else if UseJVMCINativeLibrary fl then False
      else case java_runtime of
             None \<Rightarrow> False
           | Some runtime \<Rightarrow>
               (case probe_HotSpotJVMCIRuntime runtime of
                  None \<Rightarrow> False
                | Some receiver \<Rightarrow>
                    (case excludeFromJVMCICompilation runtime receiver of
                       None \<Rightarrow> False
                     | Some excludeModules \<Rightarrow>
                         exclude_loop excludeModules
                           (module_oop (klass_module (method_holder method))))))"

subsection \<open>Bootstrap\<close>

text \<open>
  Modelled from the spec: what the compiler threads do to the object while
  \<^verbatim>\<open>bootstrap\<close> sleeps. They count compilations with the two increment functions above,
  and an external signal sets \<^verbatim>\<open>_bootstrap_compilation_request_handled\<close> once the first
  bootstrap compile request has been accepted (the setter is in jvmciCompiler.hpp, which
  is not among the sources).
\<close>

datatype thread_event =
    Inc_methods_compiled
  | Inc_global_compilation_ticks
  | Set_bootstrap_compilation_request_handled

fun thread_step :: "thread_event \<Rightarrow> JVMCICompiler \<Rightarrow> JVMCICompiler" where
  "thread_step Inc_methods_compiled c = inc_methods_compiled c"
| "thread_step Inc_global_compilation_ticks c = inc_global_compilation_ticks c"
| "thread_step Set_bootstrap_compilation_request_handled c =
     c\<lparr>bootstrap_compilation_request_handled := True\<rparr>"

definition during_sleep :: "thread_event list \<Rightarrow> JVMCICompiler \<Rightarrow> JVMCICompiler" where
  "during_sleep evs c = fold thread_step evs c"

text \<open>
  What \<^verbatim>\<open>bootstrap\<close> reads from outside the object. The calls of \<^verbatim>\<open>os::sleep\<close> are
  numbered from 0: \<open>queue_size env lvl k\<close> is what \<^verbatim>\<open>CompileBroker::queue_size(lvl)\<close>
  returns after sleep \<open>k\<close>, \<open>other_threads env k\<close> is what the compiler threads do to
  the object during sleep \<open>k\<close>, and \<open>javaTimeMillis env k\<close> is the clock after \<open>k\<close>
  sleeps.
\<close>

record Env =
  flags :: Flags
  Object_klass_methods :: "Method list"
  queue_size :: "CompLevel \<Rightarrow> nat \<Rightarrow> jint"
  other_threads :: "nat \<Rightarrow> thread_event list"
  javaTimeMillis :: "nat \<Rightarrow> jlong"
  java_runtime :: "JVMCIRuntime option"

text \<open>
  A call of \<^verbatim>\<open>CompileBroker::compile_method\<close> is recorded with its arguments; what the
  broker then does with the request shows in \<open>queue_size\<close> and \<open>other_threads\<close>.
\<close>

definition CompileBroker_compile_method ::
  "Method \<Rightarrow> int \<Rightarrow> CompLevel \<Rightarrow> Method \<Rightarrow> jint \<Rightarrow> CompileReason \<Rightarrow> VM \<Rightarrow> VM" where
  "CompileBroker_compile_method m bci lvl hm cnt reason vm =
     vm\<lparr>compile_requests := compile_requests vm @
        [\<lparr> task_method = m, osr_bci = bci, comp_level = lvl, hot_method = hm,
           hot_count = cnt, compile_reason = reason \<rparr>]\<rparr>"

text \<open>The loop over the methods of \<^verbatim>\<open>java.lang.Object\<close>.\<close>

fun submit_loop :: "Method list \<Rightarrow> VM \<Rightarrow> VM" where
  "submit_loop [] vm = vm"
| "submit_loop (mh # rest) vm =
     submit_loop rest
       (if \<not> is_native mh \<and> \<not> is_static mh \<and> \<not> is_initializer mh
        then (let hot_count = 10
              in CompileBroker_compile_method mh InvocationEntryBci
                   CompLevel_full_optimization mh hot_count Reason_Bootstrap vm)
        else vm)"

text \<open>
  The progress dots: \<^verbatim>\<open>while (z < (_methods_compiled / 100)) { ++z; print "." }\<close>, with
  the truncating division of C++ on \<^verbatim>\<open>int\<close>.
\<close>

function progress :: "jint \<Rightarrow> jint \<Rightarrow> tty_event list \<Rightarrow> jint \<times> tty_event list" where
  "progress z mc out =
     (if z <s word_of_int (sint mc sdiv 100)
      then progress (z + 1) mc (out @ [Print_raw ''.''])
      else (z, out))"
  by pat_completeness auto
termination
proof (relation "measure (\<lambda>(z, mc, out). nat (sint (word_of_int (sint mc sdiv 100) :: jint) - sint z))")
  show "wf (measure (\<lambda>(z, mc, out). nat (sint (word_of_int (sint mc sdiv 100) :: jint) - sint z)))"
    by simp
next
  fix z mc :: jint and out :: "tty_event list"
  assume lt: "z <s word_of_int (sint mc sdiv 100)"
  define m :: jint where "m = word_of_int (sint mc sdiv 100)"
  have a: "sint z < sint m"
    using lt by (simp add: m_def word_sless_alt)
  have b: "sint m < 2 ^ 31" "- (2 ^ 31) \<le> sint z"
    using sint_lt [of m] sint_ge [of z] by simp_all
  have "sint (z + 1) = signed_take_bit 31 (sint z + 1)"
    by (simp add: sint_word_ariths)
  also have "\<dots> = sint z + 1"
    using a b by (simp add: signed_take_bit_int_eq_self)
  finally have "sint (z + 1) = sint z + 1" .
  then show "((z + 1, mc, out @ [Print_raw ''.'']), (z, mc, out))
      \<in> measure (\<lambda>(z, mc, out). nat (sint (word_of_int (sint mc sdiv 100) :: jint) - sint z))"
    using a by (simp add: m_def)
qed

declare progress.simps [simp del]

text \<open>
  The inner loop: sleep, read the queue size, and go on while no request has been
  handled, this is the first round and the queue is empty. \<open>k\<close> is the number of the
  next sleep. The loop need not end, so its result is an option.
\<close>

partial_function (option) wait_loop ::
  "Env \<Rightarrow> bool \<Rightarrow> nat \<Rightarrow> JVMCICompiler \<Rightarrow> (nat \<times> JVMCICompiler \<times> jint) option" where
  "wait_loop env first_round k c =
     (let c' = during_sleep (other_threads env k) c;
          qsize = queue_size env CompLevel_full_optimization k
      in if \<not> bootstrap_compilation_request_handled c' \<and> first_round \<and> qsize = 0
         then wait_loop env first_round (Suc k) c'
         else Some (Suc k, c', qsize))"

declare wait_loop.simps [code]

text \<open>The outer loop, which runs until a round ends with an empty queue.\<close>

partial_function (option) poll_loop ::
  "Env \<Rightarrow> bool \<Rightarrow> jint \<Rightarrow> nat \<Rightarrow> VM \<Rightarrow> (nat \<times> VM) option" where
  "poll_loop env first_round z k vm =
     (case wait_loop env first_round k (compiler vm) of
        None \<Rightarrow> None
      | Some (k', c', qsize) \<Rightarrow>
          (let vm1 = vm\<lparr>compiler := c'\<rparr>;
               (z', out) = (if PrintBootstrap (flags env)
                            then progress z (methods_compiled c') (tty vm1)
                            else (z, tty vm1));
               vm2 = vm1\<lparr>tty := out\<rparr>
           in if qsize \<noteq> 0 then poll_loop env False z' k' vm2 else Some (k', vm2)))"

declare poll_loop.simps [code]

text \<open>
  \<^verbatim>\<open>bootstrap\<close> in three parts. The first runs from setting the flag to the end of the
  loop over the methods; the second is the two nested polling loops above; the third
  runs from the summary line to the notification of the runtime, after \<open>k\<close> sleeps,
  \<open>start\<close> being the clock read by the first part. Calling a member function through
  the null pointer that \<^verbatim>\<open>JVMCI::java_runtime()\<close> may return stops the VM. An exception
  of the notification stays pending on the thread when the call returns.
\<close>

definition bootstrap_submit :: "Env \<Rightarrow> VM \<Rightarrow> VM" where
  "bootstrap_submit env vm =
     (let vm1 = vm\<lparr>compiler := (compiler vm)\<lparr>bootstrapping := True\<rparr>\<rparr>;
          vm2 = (if PrintBootstrap (flags env)
                 then vm1\<lparr>tty := tty vm1 @ [Print ''Bootstrapping JVMCI'']\<rparr>
                 else vm1)
      in submit_loop (Object_klass_methods env) vm2)"

definition bootstrap_finish :: "Env \<Rightarrow> jlong \<Rightarrow> nat \<Rightarrow> VM \<Rightarrow> vm_error + VM" where
  "bootstrap_finish env start k vm =
     (let vm1 = (if PrintBootstrap (flags env)
                 then vm\<lparr>tty := tty vm @
                   [Print_summary (javaTimeMillis env k - start)
                      (methods_compiled (compiler vm))]\<rparr>
                 else vm);
          vm2 = vm1\<lparr>compiler := (compiler vm1)\<lparr>bootstrapping := False\<rparr>\<rparr>
      in case java_runtime env of
           None \<Rightarrow> Inl Null_dereference
         | Some runtime \<Rightarrow>
             (case bootstrap_finished runtime (compiler vm2) of
                None \<Rightarrow> Inr vm2
              | Some e \<Rightarrow> Inr (vm2\<lparr>pending_exception := Some e\<rparr>)))"

text \<open>
  The whole call. \<open>None\<close>: it never returns. \<open>Some (Inl e)\<close>: the VM stops with
  \<open>e\<close>. \<open>Some (Inr vm')\<close>: it returns and leaves \<open>vm'\<close>. The debug-only setting of
  \<^verbatim>\<open>CompileTheWorld\<close> is undone on return, and only the broker reads it.
\<close>

definition bootstrap :: "Env \<Rightarrow> VM \<Rightarrow> (vm_error + VM) option" where
  "bootstrap env vm =
     (if mode (flags env) = Mode_int then Some (Inr vm)
      else
        (let start = javaTimeMillis env 0
         in case poll_loop env True 0 0 (bootstrap_submit env vm) of
              None \<Rightarrow> None
            | Some (k, vm') \<Rightarrow> Some (bootstrap_finish env start k vm')))"

text \<open>
  What the loops observe. \<open>compiler_after env c k\<close> is the object after \<open>k\<close> sleeps,
  and \<open>handled_at env c k\<close> tells whether the flag is set when the loop reads it after
  sleep \<open>k\<close>.
\<close>

fun compiler_after :: "Env \<Rightarrow> JVMCICompiler \<Rightarrow> nat \<Rightarrow> JVMCICompiler" where
  "compiler_after env c 0 = c"
| "compiler_after env c (Suc k) = during_sleep (other_threads env k) (compiler_after env c k)"

definition handled_at :: "Env \<Rightarrow> JVMCICompiler \<Rightarrow> nat \<Rightarrow> bool" where
  "handled_at env c k = bootstrap_compilation_request_handled (compiler_after env c (Suc k))"

text \<open>
  What holds when the outer loop, started before sleep \<open>k\<close> on an object that is
  \<open>c0\<close> after \<open>k\<close> sleeps, ends before sleep \<open>k'\<close>: the last queue size read was
  zero, the object is \<open>c0\<close> after \<open>k'\<close> sleeps, the loop touched nothing but the
  object and the output, and a loop started in its first round has seen the flag set or
  the queue non-empty.
\<close>

definition poll_post :: "JVMCICompiler \<Rightarrow> Env \<Rightarrow> bool \<Rightarrow> nat \<Rightarrow> VM \<Rightarrow> nat \<times> VM \<Rightarrow> bool" where
  "poll_post c0 env fr k vm r =
     (case r of (k', vm') \<Rightarrow>
        k < k' \<and> compiler vm' = compiler_after env c0 k'
        \<and> queue_size env CompLevel_full_optimization (k' - 1) = 0
        \<and> pending_exception vm' = pending_exception vm
        \<and> compile_requests vm' = compile_requests vm
        \<and> completed_vm_startup_calls vm' = completed_vm_startup_calls vm
        \<and> (fr \<longrightarrow> (\<exists>k0. k \<le> k0 \<and> k0 < k' \<and>
              (handled_at env c0 k0 \<or> queue_size env CompLevel_full_optimization k0 \<noteq> 0))))"

subsection \<open>The compilation entry point\<close>

text \<open>
  Modelled from the spec: the macro \<^verbatim>\<open>ShouldNotReachHere\<close> (utilities/debug.hpp is not
  among the sources) ends the process with a fatal "unreachable" diagnostic.
\<close>

definition ShouldNotReachHere :: "vm_error + 'a" where
  "ShouldNotReachHere = Inl Should_not_reach_here"

text \<open>
  The arguments (environment, target method, entry bci, directives) are not looked at.
\<close>

definition compile_method :: "'env \<Rightarrow> Method \<Rightarrow> int \<Rightarrow> 'dir \<Rightarrow> vm_error + unit" where
  "compile_method env target entry_bci directive = ShouldNotReachHere"

subsection \<open>Sample configurations\<close>

text \<open>
  A VM with JVMCI switched on, a fresh compiler object, a runtime whose exclusion list
  holds the modules 3 and 4, and a method of module 3.
\<close>

definition sample_flags :: Flags where
  "sample_flags = \<lparr> UseCompiler = True, EnableJVMCI = True, UseJVMCICompiler = True,
     UseJVMCINativeLibrary = False, PrintBootstrap = True, mode = Mode_mixed \<rparr>"

definition sample_compiler :: JVMCICompiler where
  "sample_compiler = \<lparr> compiler_state = uninitialized, bootstrapping = False,
     bootstrap_compilation_request_handled = False, methods_compiled = 0,
     global_compilation_ticks = 0 \<rparr>"

definition sample_vm :: VM where
  "sample_vm = \<lparr> compiler = sample_compiler, completed_vm_startup_calls = 0,
     compile_requests = [], tty = [], pending_exception = None \<rparr>"

definition sample_runtime :: JVMCIRuntime where
  "sample_runtime = \<lparr> probe_HotSpotJVMCIRuntime = Some 7,
     excludeFromJVMCICompilation = (\<lambda>r. if r = 7 then Some [4, 3] else None),
     bootstrap_finished = (\<lambda>c. if bootstrapping c then None else Some ''InternalError'') \<rparr>"

definition sample_method :: Method where
  "sample_method = \<lparr> method_id = 1, is_native = False, is_static = False,
     is_initializer = False, method_holder = \<lparr> klass_module = \<lparr> module_oop = 3 \<rparr> \<rparr> \<rparr>"

text \<open>
  A bootstrap run: of the four methods of \<^verbatim>\<open>Object\<close> only the first qualifies; the
  queue is empty at the first poll, holds 2 and 1 requests at the next two and is empty
  at the fourth; meanwhile the compiler threads set the flag and count 121 compilations.
  The notification of the sample runtime fails when it finds the flag cleared.
\<close>

definition sample_env :: Env where
  "sample_env = \<lparr> flags = sample_flags,
     Object_klass_methods =
       [sample_method, sample_method\<lparr>method_id := 2, is_native := True\<rparr>,
        sample_method\<lparr>method_id := 3, is_static := True\<rparr>,
        sample_method\<lparr>method_id := 4, is_initializer := True\<rparr>],
     queue_size = (\<lambda>lvl k. if k = 0 then 0 else if k = 1 then 2 else if k = 2 then 1 else 0),
     other_threads = (\<lambda>k. if k = 1 then [Set_bootstrap_compilation_request_handled]
                          else if k = 2 then replicate 120 Inc_methods_compiled
                          else if k = 3 then [Inc_methods_compiled, Inc_global_compilation_ticks]
                          else []),
     javaTimeMillis = (\<lambda>k. of_nat (100 * k)),
     java_runtime = Some sample_runtime \<rparr>"

text \<open>The VM after the four polls of that run, before the summary line.\<close>

definition sample_polled :: VM where
  "sample_polled = \<lparr> compiler = \<lparr> compiler_state = uninitialized, bootstrapping = True,
       bootstrap_compilation_request_handled = True, methods_compiled = 121,
       global_compilation_ticks = 122 \<rparr>,
     completed_vm_startup_calls = 0,
     compile_requests = [\<lparr> task_method = sample_method, osr_bci = - 1,
       comp_level = CompLevel_full_optimization, hot_method = sample_method,
       hot_count = 10, compile_reason = Reason_Bootstrap \<rparr>],
     tty = [Print ''Bootstrapping JVMCI'', Print_raw ''.''],
     pending_exception = None \<rparr>"

text \<open>
  An idle run: no method of \<^verbatim>\<open>Object\<close> qualifies, the queue is always empty, and no
  thread touches the object.
\<close>

definition idle_env :: Env where
  "idle_env = \<lparr> flags = sample_flags,
     Object_klass_methods = [sample_method\<lparr>is_native := True\<rparr>],
     queue_size = (\<lambda>lvl k. 0),
     other_threads = (\<lambda>k. []),
     javaTimeMillis = (\<lambda>k. of_nat (100 * k)),
     java_runtime = Some sample_runtime \<rparr>"

text \<open>
  An object whose first counter is the largest \<^verbatim>\<open>int\<close> and whose second counter is
  the largest \<^verbatim>\<open>unsigned int\<close>.
\<close>

definition overflow_compiler :: JVMCICompiler where
  "overflow_compiler = sample_compiler\<lparr>methods_compiled := 0x7FFFFFFF,
     global_compilation_ticks := 0xFFFFFFFF\<rparr>"

section \<open>Properties\<close>

subsection \<open>Auxiliary facts\<close>

lemma exclude_loop_set: "exclude_loop xs m = (m \<in> set xs)"
  by (induction xs) auto

lemma initialize_noop:
  "\<not> UseCompiler fl \<or> \<not> EnableJVMCI fl \<or> \<not> UseJVMCICompiler fl
     \<or> compiler_state (compiler vm) = initialized \<Longrightarrow> initialize fl vm = vm"
  by (auto simp: initialize_def should_perform_init_def)

lemma initialize_times_noop:
  "\<not> UseCompiler fl \<or> \<not> EnableJVMCI fl \<or> \<not> UseJVMCICompiler fl
     \<or> compiler_state (compiler vm) = initialized \<Longrightarrow> initialize_times n fl vm = vm"
  by (induction n) (auto simp: initialize_noop)

lemma transitions_noop:
  "\<not> UseCompiler fl \<or> \<not> EnableJVMCI fl \<or> \<not> UseJVMCICompiler fl
     \<or> compiler_state (compiler vm) = initialized \<Longrightarrow> transitions n fl vm = 0"
  by (induction n) (auto simp: initialize_noop)

lemma initialize_first:
  "UseCompiler fl \<Longrightarrow> EnableJVMCI fl \<Longrightarrow> UseJVMCICompiler fl \<Longrightarrow>
   compiler_state (compiler vm) = uninitialized \<Longrightarrow>
   initialize fl vm =
     vm\<lparr>compiler := (compiler vm)\<lparr>compiler_state := initialized\<rparr>,
        completed_vm_startup_calls := Suc (completed_vm_startup_calls vm)\<rparr>"
  by (simp add: initialize_def should_perform_init_def set_state_def completed_vm_startup_def)


subsection \<open>Auxiliary facts about the polling loops\<close>

text \<open>After the first round the inner loop is a single poll.\<close>

lemma wait_loop_later_round:
  "wait_loop env False k c =
     Some (Suc k, during_sleep (other_threads env k) c, queue_size env CompLevel_full_optimization k)"
  by (subst wait_loop.simps) (simp add: Let_def)

lemma wait_loop_result:
  assumes "wait_loop env fr k c = Some r"
  shows "c = compiler_after env c0 k \<longrightarrow>
     (case r of (k', c', q) \<Rightarrow>
        k < k' \<and> c' = compiler_after env c0 k'
        \<and> q = queue_size env CompLevel_full_optimization (k' - 1)
        \<and> (fr \<longrightarrow> handled_at env c0 (k' - 1) \<or> q \<noteq> 0))"
proof (rule wait_loop.raw_induct [where P = "\<lambda>env fr k c r. c = compiler_after env c0 k \<longrightarrow>
     (case r of (k', c', q) \<Rightarrow>
        k < k' \<and> c' = compiler_after env c0 k'
        \<and> q = queue_size env CompLevel_full_optimization (k' - 1)
        \<and> (fr \<longrightarrow> handled_at env c0 (k' - 1) \<or> q \<noteq> 0))", OF _ assms])
  fix wl env fr k c r
  assume IH: "\<And>env fr k c r. wl env fr k c = Some r \<Longrightarrow>
     c = compiler_after env c0 k \<longrightarrow>
     (case r of (k', c', q) \<Rightarrow>
        k < k' \<and> c' = compiler_after env c0 k'
        \<and> q = queue_size env CompLevel_full_optimization (k' - 1)
        \<and> (fr \<longrightarrow> handled_at env c0 (k' - 1) \<or> q \<noteq> 0))"
    and body: "(let c' = during_sleep (other_threads env k) c;
          qsize = queue_size env CompLevel_full_optimization k
      in if \<not> bootstrap_compilation_request_handled c' \<and> fr \<and> qsize = 0
         then wl env fr (Suc k) c'
         else Some (Suc k, c', qsize)) = Some r"
  show "c = compiler_after env c0 k \<longrightarrow>
     (case r of (k', c', q) \<Rightarrow>
        k < k' \<and> c' = compiler_after env c0 k'
        \<and> q = queue_size env CompLevel_full_optimization (k' - 1)
        \<and> (fr \<longrightarrow> handled_at env c0 (k' - 1) \<or> q \<noteq> 0))"
  proof
    assume c: "c = compiler_after env c0 k"
    let ?c' = "during_sleep (other_threads env k) c"
    have c': "?c' = compiler_after env c0 (Suc k)" using c by simp
    show "case r of (k', c', q) \<Rightarrow>
        k < k' \<and> c' = compiler_after env c0 k'
        \<and> q = queue_size env CompLevel_full_optimization (k' - 1)
        \<and> (fr \<longrightarrow> handled_at env c0 (k' - 1) \<or> q \<noteq> 0)"
    proof (cases "\<not> bootstrap_compilation_request_handled ?c' \<and> fr
                  \<and> queue_size env CompLevel_full_optimization k = 0")
      case True
      then have "wl env fr (Suc k) ?c' = Some r"
        using body by (simp add: Let_def)
      from IH [OF this] c' show ?thesis
        by (auto split: prod.splits)
    next
      case False
      then have "r = (Suc k, ?c', queue_size env CompLevel_full_optimization k)"
        using body by (auto simp add: Let_def split: if_splits)
      then show ?thesis using False c' by (auto simp: handled_at_def)
    qed
  qed
qed

lemma wait_loop_first_exit:
  assumes "handled_at env c0 k0 \<or> queue_size env CompLevel_full_optimization k0 \<noteq> 0"
    and "\<forall>j. k \<le> j \<and> j < k0 \<longrightarrow>
           \<not> handled_at env c0 j \<and> queue_size env CompLevel_full_optimization j = 0"
    and "k \<le> k0"
  shows "wait_loop env True k (compiler_after env c0 k) =
     Some (Suc k0, compiler_after env c0 (Suc k0), queue_size env CompLevel_full_optimization k0)"
  using assms
proof (induction "k0 - k" arbitrary: k)
  case 0
  then have "k = k0" by simp
  then show ?case using "0.prems"(1)
    by (subst wait_loop.simps) (auto simp add: Let_def handled_at_def)
next
  case (Suc d)
  then have lt: "k < k0" by simp
  then have quiet: "\<not> handled_at env c0 k \<and> queue_size env CompLevel_full_optimization k = 0"
    using Suc.prems(2) by simp
  have "wait_loop env True (Suc k) (compiler_after env c0 (Suc k)) =
     Some (Suc k0, compiler_after env c0 (Suc k0), queue_size env CompLevel_full_optimization k0)"
    using Suc.hyps(2) Suc.prems lt by (intro Suc.hyps(1)) auto
  then show ?case using quiet
    by (subst wait_loop.simps) (simp add: Let_def handled_at_def)
qed

lemma poll_loop_result:
  assumes "poll_loop env fr z k vm = Some r"
  shows "compiler vm = compiler_after env c0 k \<longrightarrow> poll_post c0 env fr k vm r"
proof (rule poll_loop.raw_induct [where P = "\<lambda>env fr z k vm r.
     compiler vm = compiler_after env c0 k \<longrightarrow> poll_post c0 env fr k vm r", OF _ assms])
  fix pl env fr z k vm r
  assume IH: "\<And>env fr z k vm r. pl env fr z k vm = Some r \<Longrightarrow>
     compiler vm = compiler_after env c0 k \<longrightarrow> poll_post c0 env fr k vm r"
    and body: "(case wait_loop env fr k (compiler vm) of
        None \<Rightarrow> None
      | Some (k', c', qsize) \<Rightarrow>
          (let vm1 = vm\<lparr>compiler := c'\<rparr>;
               (z', out) = (if PrintBootstrap (flags env)
                            then progress z (methods_compiled c') (tty vm1)
                            else (z, tty vm1));
               vm2 = vm1\<lparr>tty := out\<rparr>
           in if qsize \<noteq> 0 then pl env False z' k' vm2 else Some (k', vm2))) = Some r"
  show "compiler vm = compiler_after env c0 k \<longrightarrow> poll_post c0 env fr k vm r"
  proof
    assume c: "compiler vm = compiler_after env c0 k"
    from body obtain k1 c1 q where
      w: "wait_loop env fr k (compiler vm) = Some (k1, c1, q)"
      by (cases "wait_loop env fr k (compiler vm)") auto
    from wait_loop_result [OF w, of c0] c have
      w1: "k < k1" "c1 = compiler_after env c0 k1"
          "q = queue_size env CompLevel_full_optimization (k1 - 1)"
          "fr \<longrightarrow> handled_at env c0 (k1 - 1) \<or> q \<noteq> 0"
      by auto
    obtain z' out where p: "(if PrintBootstrap (flags env)
                            then progress z (methods_compiled c1) (tty (vm\<lparr>compiler := c1\<rparr>))
                            else (z, tty (vm\<lparr>compiler := c1\<rparr>))) = (z', out)"
      by (rule prod.exhaust)
    let ?vm2 = "vm\<lparr>compiler := c1, tty := out\<rparr>"
    have body': "(if q \<noteq> 0 then pl env False z' k1 ?vm2 else Some (k1, ?vm2)) = Some r"
      using body w p by (simp add: Let_def)
    have first: "fr \<longrightarrow> (\<exists>k0. k \<le> k0 \<and> k0 < k1 \<and>
              (handled_at env c0 k0 \<or> queue_size env CompLevel_full_optimization k0 \<noteq> 0))"
    proof
      assume fr
      then have "handled_at env c0 (k1 - 1) \<or> queue_size env CompLevel_full_optimization (k1 - 1) \<noteq> 0"
        using w1 by simp
      moreover have "k \<le> k1 - 1" "k1 - 1 < k1" using w1(1) by simp_all
      ultimately show "\<exists>k0. k \<le> k0 \<and> k0 < k1 \<and>
              (handled_at env c0 k0 \<or> queue_size env CompLevel_full_optimization k0 \<noteq> 0)"
        by blast
    qed
    show "poll_post c0 env fr k vm r"
    proof (cases "q = 0")
      case True
      then have "r = (k1, ?vm2)" using body' by simp
      then show ?thesis using w1 True first by (simp add: poll_post_def)
    next
      case False
      then have rec: "pl env False z' k1 ?vm2 = Some r" using body' by simp
      have "compiler ?vm2 = compiler_after env c0 k1" using w1 by simp
      with IH [OF rec] have ih: "poll_post c0 env False k1 ?vm2 r" by simp
      obtain k' vm' where r: "r = (k', vm')" by (rule prod.exhaust)
      have lt: "k1 < k'" using ih r by (simp add: poll_post_def)
      have "fr \<longrightarrow> (\<exists>k0. k \<le> k0 \<and> k0 < k' \<and>
              (handled_at env c0 k0 \<or> queue_size env CompLevel_full_optimization k0 \<noteq> 0))"
      proof
        assume fr
        with first obtain k0 where "k \<le> k0" "k0 < k1"
          "handled_at env c0 k0 \<or> queue_size env CompLevel_full_optimization k0 \<noteq> 0"
          by blast
        moreover from this lt have "k0 < k'" by simp
        ultimately show "\<exists>k0. k \<le> k0 \<and> k0 < k' \<and>
              (handled_at env c0 k0 \<or> queue_size env CompLevel_full_optimization k0 \<noteq> 0)"
          by blast
      qed
      then show ?thesis using ih r w1(1) lt by (simp add: poll_post_def)
    qed
  qed
qed

lemma poll_loop_later_round:
  "\<exists>z' vm2. poll_loop env False z k vm =
     (if queue_size env CompLevel_full_optimization k \<noteq> 0
      then poll_loop env False z' (Suc k) vm2 else Some (Suc k, vm2))"
proof -
  let ?c' = "during_sleep (other_threads env k) (compiler vm)"
  obtain z' out where p: "(if PrintBootstrap (flags env)
      then progress z (methods_compiled ?c') (tty (vm\<lparr>compiler := ?c'\<rparr>))
      else (z, tty (vm\<lparr>compiler := ?c'\<rparr>))) = (z', out)"
    by (rule prod.exhaust)
  have "poll_loop env False z k vm =
     (if queue_size env CompLevel_full_optimization k \<noteq> 0
      then poll_loop env False z' (Suc k) (vm\<lparr>compiler := ?c', tty := out\<rparr>)
      else Some (Suc k, vm\<lparr>compiler := ?c', tty := out\<rparr>))"
    by (subst poll_loop.simps)
       (simp only: wait_loop_later_round option.case prod.case Let_def p)
  then show ?thesis by blast
qed

lemma poll_loop_drains:
  "queue_size env CompLevel_full_optimization (k + n) = 0 \<Longrightarrow>
   \<exists>r. poll_loop env False z k vm = Some r"
proof (induction n arbitrary: z k vm)
  case 0
  then show ?case
    using poll_loop_later_round [of env z k vm] by auto
next
  case (Suc n)
  have "queue_size env CompLevel_full_optimization (Suc k + n) = 0"
    using Suc.prems by simp
  then have "\<And>z vm. \<exists>r. poll_loop env False z (Suc k) vm = Some r"
    by (rule Suc.IH)
  then show ?case
    using poll_loop_later_round [of env z k vm] by (auto split: if_splits)
qed

lemma poll_loop_returns:
  assumes h: "handled_at env c0 k0 \<or> queue_size env CompLevel_full_optimization k0 \<noteq> 0"
    and q: "queue_size env CompLevel_full_optimization k1 = 0"
    and le: "k0 \<le> k1"
    and c: "compiler vm = compiler_after env c0 0"
  shows "\<exists>r. poll_loop env True z 0 vm = Some r"
proof -
  define P where "P j \<longleftrightarrow>
    handled_at env c0 j \<or> queue_size env CompLevel_full_optimization j \<noteq> 0" for j
  define m where "m = (LEAST j. P j)"
  have "P k0" using h by (simp add: P_def)
  then have Pm: "P m" and mk: "m \<le> k0"
    unfolding m_def by (rule LeastI, rule Least_le)
  have "\<not> P j" if "j < m" for j
    using that unfolding m_def by (rule not_less_Least)
  then have before: "\<forall>j. 0 \<le> j \<and> j < m \<longrightarrow>
      \<not> handled_at env c0 j \<and> queue_size env CompLevel_full_optimization j = 0"
    by (simp add: P_def)
  have exit: "handled_at env c0 m \<or> queue_size env CompLevel_full_optimization m \<noteq> 0"
    using Pm by (simp add: P_def)
  have w: "wait_loop env True 0 (compiler vm) =
     Some (Suc m, compiler_after env c0 (Suc m), queue_size env CompLevel_full_optimization m)"
    using wait_loop_first_exit [OF exit before] c by simp
  obtain z' out where p: "(if PrintBootstrap (flags env)
      then progress z (methods_compiled (compiler_after env c0 (Suc m)))
             (tty (vm\<lparr>compiler := compiler_after env c0 (Suc m)\<rparr>))
      else (z, tty (vm\<lparr>compiler := compiler_after env c0 (Suc m)\<rparr>))) = (z', out)"
    by (rule prod.exhaust)
  let ?vm2 = "vm\<lparr>compiler := compiler_after env c0 (Suc m), tty := out\<rparr>"
  have unfold: "poll_loop env True z 0 vm =
     (if queue_size env CompLevel_full_optimization m \<noteq> 0
      then poll_loop env False z' (Suc m) ?vm2 else Some (Suc m, ?vm2))"
    by (subst poll_loop.simps) (simp only: w option.case prod.case Let_def p)
  show ?thesis
  proof (cases "queue_size env CompLevel_full_optimization m = 0")
    case True
    then show ?thesis using unfold by simp
  next
    case False
    then have "m \<noteq> k1" using q by auto
    then have "Suc m + (k1 - Suc m) = k1" using mk le by simp
    then have "queue_size env CompLevel_full_optimization (Suc m + (k1 - Suc m)) = 0"
      using q by simp
    then have "\<exists>r. poll_loop env False z' (Suc m) ?vm2 = Some r"
      by (rule poll_loop_drains)
    then show ?thesis using unfold False by simp
  qed
qed

subsection \<open>Auxiliary facts about bootstrap\<close>

text \<open>The compiler threads neither read nor write the bootstrapping flag.\<close>

lemma thread_step_bootstrapping:
  "thread_step ev (c\<lparr>bootstrapping := b\<rparr>) = (thread_step ev c)\<lparr>bootstrapping := b\<rparr>"
  by (cases ev) (simp_all add: inc_methods_compiled_def inc_global_compilation_ticks_def)

lemma during_sleep_bootstrapping:
  "during_sleep evs (c\<lparr>bootstrapping := b\<rparr>) = (during_sleep evs c)\<lparr>bootstrapping := b\<rparr>"
  unfolding during_sleep_def
  by (induction evs arbitrary: c) (simp_all add: thread_step_bootstrapping)

lemma compiler_after_bootstrapping:
  "compiler_after env (c\<lparr>bootstrapping := b\<rparr>) k = (compiler_after env c k)\<lparr>bootstrapping := b\<rparr>"
  by (induction k) (simp_all add: during_sleep_bootstrapping)

lemma handled_at_bootstrapping:
  "handled_at env (c\<lparr>bootstrapping := b\<rparr>) k = handled_at env c k"
  by (simp add: handled_at_def compiler_after_bootstrapping del: compiler_after.simps)

lemma during_sleep_not_handled:
  "\<not> bootstrap_compilation_request_handled c \<Longrightarrow>
   Set_bootstrap_compilation_request_handled \<notin> set evs \<Longrightarrow>
   \<not> bootstrap_compilation_request_handled (during_sleep evs c)"
  unfolding during_sleep_def
proof (induction evs arbitrary: c)
  case Nil
  then show ?case by simp
next
  case (Cons ev evs)
  then have "\<not> bootstrap_compilation_request_handled (thread_step ev c)"
    by (cases ev) (simp_all add: inc_methods_compiled_def inc_global_compilation_ticks_def)
  then show ?case using Cons by simp
qed

lemma compiler_after_not_handled:
  "\<not> bootstrap_compilation_request_handled c \<Longrightarrow>
   \<forall>j. Set_bootstrap_compilation_request_handled \<notin> set (other_threads env j) \<Longrightarrow>
   \<not> bootstrap_compilation_request_handled (compiler_after env c k)"
  by (induction k) (simp_all add: during_sleep_not_handled)

lemma submit_loop_requests:
  "compile_requests (submit_loop ms vm) =
     compile_requests vm @
     map (\<lambda>m. \<lparr> task_method = m, osr_bci = - 1, comp_level = CompLevel_full_optimization,
                hot_method = m, hot_count = 10, compile_reason = Reason_Bootstrap \<rparr>)
       (filter (\<lambda>m. \<not> is_native m \<and> \<not> is_static m \<and> \<not> is_initializer m) ms)"
  by (induction ms arbitrary: vm)
     (simp_all add: CompileBroker_compile_method_def InvocationEntryBci_def)

lemma submit_loop_frame:
  "compiler (submit_loop ms vm) = compiler vm
   \<and> pending_exception (submit_loop ms vm) = pending_exception vm
   \<and> completed_vm_startup_calls (submit_loop ms vm) = completed_vm_startup_calls vm
   \<and> tty (submit_loop ms vm) = tty vm"
  by (induction ms arbitrary: vm) (simp_all add: CompileBroker_compile_method_def)

lemma bootstrap_submit_frame:
  "compiler (bootstrap_submit env vm) = (compiler vm)\<lparr>bootstrapping := True\<rparr>
   \<and> pending_exception (bootstrap_submit env vm) = pending_exception vm
   \<and> completed_vm_startup_calls (bootstrap_submit env vm) = completed_vm_startup_calls vm"
  by (simp add: bootstrap_submit_def Let_def submit_loop_frame)

lemma bootstrap_return_condition:
  assumes "mode (flags env) \<noteq> Mode_int"
  shows "(bootstrap env vm \<noteq> None) =
     (\<exists>k0 k1. k0 \<le> k1
        \<and> (handled_at env (compiler vm) k0 \<or> queue_size env CompLevel_full_optimization k0 \<noteq> 0)
        \<and> queue_size env CompLevel_full_optimization k1 = 0)"
proof
  let ?c0 = "(compiler vm)\<lparr>bootstrapping := True\<rparr>"
  have start: "compiler (bootstrap_submit env vm) = compiler_after env ?c0 0"
    by (simp add: bootstrap_submit_frame)
  {
    assume "bootstrap env vm \<noteq> None"
    then obtain k vm' where p: "poll_loop env True 0 0 (bootstrap_submit env vm) = Some (k, vm')"
      using assms by (auto simp: bootstrap_def Let_def split: option.splits)
    from poll_loop_result [OF p, of ?c0] start
    have post: "poll_post ?c0 env True 0 (bootstrap_submit env vm) (k, vm')" by simp
    then obtain k0 where k0: "k0 < k"
      "handled_at env ?c0 k0 \<or> queue_size env CompLevel_full_optimization k0 \<noteq> 0"
      by (auto simp: poll_post_def)
    have "queue_size env CompLevel_full_optimization (k - 1) = 0"
      using post by (simp add: poll_post_def)
    moreover have "k0 \<le> k - 1" using k0(1) by simp
    ultimately show "\<exists>k0 k1. k0 \<le> k1
        \<and> (handled_at env (compiler vm) k0 \<or> queue_size env CompLevel_full_optimization k0 \<noteq> 0)
        \<and> queue_size env CompLevel_full_optimization k1 = 0"
      using k0(2) by (auto simp: handled_at_bootstrapping)
  }
  {
    assume "\<exists>k0 k1. k0 \<le> k1
        \<and> (handled_at env (compiler vm) k0 \<or> queue_size env CompLevel_full_optimization k0 \<noteq> 0)
        \<and> queue_size env CompLevel_full_optimization k1 = 0"
    then obtain k0 k1 where kk: "k0 \<le> k1"
        "handled_at env ?c0 k0 \<or> queue_size env CompLevel_full_optimization k0 \<noteq> 0"
        "queue_size env CompLevel_full_optimization k1 = 0"
      by (auto simp: handled_at_bootstrapping)
    from poll_loop_returns [OF kk(2) kk(3) kk(1) start]
    obtain r where "poll_loop env True 0 0 (bootstrap_submit env vm) = Some r" by blast
    then show "bootstrap env vm \<noteq> None"
      using assms by (simp add: bootstrap_def Let_def split: prod.splits)
  }
qed

lemma bootstrap_waits_forever:
  assumes "mode (flags env) \<noteq> Mode_int"
    and "\<not> bootstrap_compilation_request_handled (compiler vm)"
    and "\<forall>k. Set_bootstrap_compilation_request_handled \<notin> set (other_threads env k)"
    and "\<forall>k. queue_size env CompLevel_full_optimization k = 0"
  shows "bootstrap env vm = None"
proof -
  have "\<not> handled_at env (compiler vm) k" for k
    using assms(2,3) by (simp add: handled_at_def compiler_after_not_handled del: compiler_after.simps)
  then show ?thesis
    using bootstrap_return_condition [OF assms(1), of vm] assms(4) by simp
qed

lemma bootstrap_finish_result:
  assumes "java_runtime env = Some runtime"
  shows "\<exists>vm'. bootstrap_finish env start k vm = Inr vm'
     \<and> compiler vm' = (compiler vm)\<lparr>bootstrapping := False\<rparr>
     \<and> compile_requests vm' = compile_requests vm
     \<and> completed_vm_startup_calls vm' = completed_vm_startup_calls vm
     \<and> pending_exception vm' =
         (case bootstrap_finished runtime ((compiler vm)\<lparr>bootstrapping := False\<rparr>) of
            None \<Rightarrow> pending_exception vm | Some e \<Rightarrow> Some e)"
  using assms by (simp add: bootstrap_finish_def Let_def split: option.splits)

lemma bootstrap_result:
  assumes "mode (flags env) \<noteq> Mode_int" and "bootstrap env vm = Some (Inr vm')"
  shows "\<exists>k vm1 runtime. poll_loop env True 0 0 (bootstrap_submit env vm) = Some (k, vm1)
     \<and> 0 < k \<and> java_runtime env = Some runtime
     \<and> queue_size env CompLevel_full_optimization (k - 1) = 0
     \<and> compiler vm' = (compiler_after env (compiler vm) k)\<lparr>bootstrapping := False\<rparr>
     \<and> compile_requests vm' = compile_requests (bootstrap_submit env vm)
     \<and> completed_vm_startup_calls vm' = completed_vm_startup_calls vm
     \<and> pending_exception vm' =
         (case bootstrap_finished runtime (compiler vm') of
            None \<Rightarrow> pending_exception vm | Some e \<Rightarrow> Some e)"
proof -
  let ?c0 = "(compiler vm)\<lparr>bootstrapping := True\<rparr>"
  have start: "compiler (bootstrap_submit env vm) = compiler_after env ?c0 0"
    by (simp add: bootstrap_submit_frame)
  from assms obtain k vm1 where
    p: "poll_loop env True 0 0 (bootstrap_submit env vm) = Some (k, vm1)"
    and f: "bootstrap_finish env (javaTimeMillis env 0) k vm1 = Inr vm'"
    by (auto simp: bootstrap_def Let_def split: option.splits)
  from poll_loop_result [OF p, of ?c0] start
  have post: "poll_post ?c0 env True 0 (bootstrap_submit env vm) (k, vm1)" by simp
  from f obtain runtime where rt: "java_runtime env = Some runtime"
    by (cases "java_runtime env") (simp_all add: bootstrap_finish_def Let_def)
  from bootstrap_finish_result [OF rt, of "javaTimeMillis env 0" k vm1] f
  have fin: "compiler vm' = (compiler vm1)\<lparr>bootstrapping := False\<rparr>"
    "compile_requests vm' = compile_requests vm1"
    "completed_vm_startup_calls vm' = completed_vm_startup_calls vm1"
    "pending_exception vm' =
         (case bootstrap_finished runtime ((compiler vm1)\<lparr>bootstrapping := False\<rparr>) of
            None \<Rightarrow> pending_exception vm1 | Some e \<Rightarrow> Some e)"
    by auto
  have "0 < k" "queue_size env CompLevel_full_optimization (k - 1) = 0"
    "compiler vm1 = compiler_after env ?c0 k"
    "pending_exception vm1 = pending_exception vm"
    "compile_requests vm1 = compile_requests (bootstrap_submit env vm)"
    "completed_vm_startup_calls vm1 = completed_vm_startup_calls vm"
    using post by (simp_all add: poll_post_def bootstrap_submit_frame)
  then show ?thesis using fin rt p
    by (intro exI [of _ k] exI [of _ vm1] exI [of _ runtime])
       (simp add: compiler_after_bootstrapping split: option.splits)
qed

lemma bootstrap_returns_with_runtime:
  assumes "mode (flags env) \<noteq> Mode_int" and "java_runtime env = Some runtime"
  shows "(\<exists>vm'. bootstrap env vm = Some (Inr vm')) = (bootstrap env vm \<noteq> None)"
proof
  assume "\<exists>vm'. bootstrap env vm = Some (Inr vm')"
  then show "bootstrap env vm \<noteq> None" by auto
next
  assume "bootstrap env vm \<noteq> None"
  then obtain k vm1 where
    p: "poll_loop env True 0 0 (bootstrap_submit env vm) = Some (k, vm1)"
    using assms(1) by (auto simp: bootstrap_def Let_def split: option.splits)
  from bootstrap_finish_result [OF assms(2), of "javaTimeMillis env 0" k vm1]
  obtain vm' where "bootstrap_finish env (javaTimeMillis env 0) k vm1 = Inr vm'" by blast
  then have "bootstrap env vm = Some (Inr vm')"
    using assms(1) p by (simp add: bootstrap_def Let_def)
  then show "\<exists>vm'. bootstrap env vm = Some (Inr vm')" by blast
qed

lemma sint_inc:
  fixes x :: jint
  assumes "sint x \<noteq> 2 ^ 31 - 1"
  shows "sint (x + 1) = sint x + 1"
proof -
  have b: "sint x < 2 ^ 31" "- (2 ^ 31) \<le> sint x"
    using sint_lt [of x] sint_ge [of x] by simp_all
  have "sint (x + 1) = signed_take_bit 31 (sint x + 1)"
    by (simp add: sint_word_ariths)
  also have "\<dots> = sint x + 1"
    using assms b by (simp add: signed_take_bit_int_eq_self)
  finally show ?thesis .
qed

lemma sample_poll:
  "poll_loop sample_env True 0 0 (bootstrap_submit sample_env sample_vm) = Some (4, sample_polled)"
  by code_simp

subsection \<open>The forced-compilation policy\<close>

text \<open>
  C2. While the object is bootstrapping, \<^verbatim>\<open>force_comp_at_level_simple\<close> returns false
  for every method, whatever the flags, the runtime and its exclusion list are.
\<close>

theorem force_comp_false_while_bootstrapping:
  "bootstrapping c \<Longrightarrow> force_comp_at_level_simple fl rt c method = False"
  by (simp add: force_comp_at_level_simple_def)

theorem force_comp_false_while_bootstrapping_witness:
  "bootstrapping (sample_compiler\<lparr>bootstrapping := True\<rparr>)
   \<and> excludeFromJVMCICompilation sample_runtime 7 = Some [4, 3]
   \<and> module_oop (klass_module (method_holder sample_method)) = 3
   \<and> force_comp_at_level_simple sample_flags (Some sample_runtime)
        (sample_compiler\<lparr>bootstrapping := True\<rparr>) sample_method = False"
proof -
  have h: "bootstrapping (sample_compiler\<lparr>bootstrapping := True\<rparr>)" by simp
  show ?thesis
    using h force_comp_false_while_bootstrapping
      [OF h, of sample_flags "Some sample_runtime" sample_method]
    by (simp add: sample_runtime_def sample_method_def)
qed

text \<open>
  C3. When the object is not bootstrapping, the native library is not in use, the
  runtime exists, its probe gives a non-null object and the exclusion list read from
  that object is non-null, the result is true exactly when the module of the class
  declaring the method is an element of the list. The result depends on the list only
  through its set of elements.
\<close>

theorem force_comp_iff_module_excluded:
  "\<not> bootstrapping c \<Longrightarrow> \<not> UseJVMCINativeLibrary fl \<Longrightarrow> rt = Some runtime \<Longrightarrow>
   probe_HotSpotJVMCIRuntime runtime = Some receiver \<Longrightarrow>
   excludeFromJVMCICompilation runtime receiver = Some excludeModules \<Longrightarrow>
   force_comp_at_level_simple fl rt c method =
     (module_oop (klass_module (method_holder method)) \<in> set excludeModules)"
  by (simp add: force_comp_at_level_simple_def exclude_loop_set)

theorem force_comp_iff_module_excluded_witness:
  "\<not> bootstrapping sample_compiler \<and> \<not> UseJVMCINativeLibrary sample_flags
   \<and> probe_HotSpotJVMCIRuntime sample_runtime = Some 7
   \<and> excludeFromJVMCICompilation sample_runtime 7 = Some [4, 3]
   \<and> force_comp_at_level_simple sample_flags (Some sample_runtime) sample_compiler
        sample_method = True
   \<and> force_comp_at_level_simple sample_flags (Some sample_runtime) sample_compiler
        (sample_method\<lparr>method_holder := \<lparr> klass_module = \<lparr> module_oop = 5 \<rparr> \<rparr>\<rparr>) = False"
proof -
  have h1: "\<not> bootstrapping sample_compiler" by (simp add: sample_compiler_def)
  have h2: "\<not> UseJVMCINativeLibrary sample_flags" by (simp add: sample_flags_def)
  have h3: "probe_HotSpotJVMCIRuntime sample_runtime = Some 7"
    by (simp add: sample_runtime_def)
  have h4: "excludeFromJVMCICompilation sample_runtime 7 = Some [4, 3]"
    by (simp add: sample_runtime_def)
  show ?thesis
    using h1 h2 h3 h4
      force_comp_iff_module_excluded [OF h1 h2 refl h3 h4, of sample_method]
      force_comp_iff_module_excluded [OF h1 h2 refl h3 h4,
        of "sample_method\<lparr>method_holder := \<lparr> klass_module = \<lparr> module_oop = 5 \<rparr> \<rparr>\<rparr>"]
    by (simp add: sample_method_def)
qed

text \<open>
  C4. The function fails open. Its result is a plain truth value, so it has no error
  outcome; and the result is false when the native library is in use, when there is no
  runtime, when the probe of the runtime gives null, and when the exclusion list is
  null.
\<close>

theorem force_comp_fails_open:
  "UseJVMCINativeLibrary fl \<or> rt = None
   \<or> (\<exists>runtime. rt = Some runtime \<and>
         (probe_HotSpotJVMCIRuntime runtime = None
          \<or> (\<exists>receiver. probe_HotSpotJVMCIRuntime runtime = Some receiver
                \<and> excludeFromJVMCICompilation runtime receiver = None)))
   \<Longrightarrow> force_comp_at_level_simple fl rt c method = False"
  by (auto simp add: force_comp_at_level_simple_def)

theorem force_comp_fails_open_witness:
  "force_comp_at_level_simple (sample_flags\<lparr>UseJVMCINativeLibrary := True\<rparr>)
      (Some sample_runtime) sample_compiler sample_method = False
   \<and> force_comp_at_level_simple sample_flags None sample_compiler sample_method = False
   \<and> force_comp_at_level_simple sample_flags
        (Some (sample_runtime\<lparr>probe_HotSpotJVMCIRuntime := None\<rparr>))
        sample_compiler sample_method = False
   \<and> force_comp_at_level_simple sample_flags
        (Some (sample_runtime\<lparr>excludeFromJVMCICompilation := (\<lambda>r. None)\<rparr>))
        sample_compiler sample_method = False"
proof -
  have a: "UseJVMCINativeLibrary (sample_flags\<lparr>UseJVMCINativeLibrary := True\<rparr>)"
    by simp
  have b: "probe_HotSpotJVMCIRuntime (sample_runtime\<lparr>probe_HotSpotJVMCIRuntime := None\<rparr>)
             = None"
    by simp
  have c: "probe_HotSpotJVMCIRuntime
             (sample_runtime\<lparr>excludeFromJVMCICompilation := (\<lambda>r. None)\<rparr>) = Some 7
           \<and> excludeFromJVMCICompilation
               (sample_runtime\<lparr>excludeFromJVMCICompilation := (\<lambda>r. None)\<rparr>) 7 = None"
    by (simp add: sample_runtime_def)
  show ?thesis
    using force_comp_fails_open
        [of "sample_flags\<lparr>UseJVMCINativeLibrary := True\<rparr>" "Some sample_runtime"
            sample_compiler sample_method]
      force_comp_fails_open [of sample_flags None sample_compiler sample_method]
      force_comp_fails_open
        [of sample_flags "Some (sample_runtime\<lparr>probe_HotSpotJVMCIRuntime := None\<rparr>)"
            sample_compiler sample_method]
      force_comp_fails_open
        [of sample_flags
            "Some (sample_runtime\<lparr>excludeFromJVMCICompilation := (\<lambda>r. None)\<rparr>)"
            sample_compiler sample_method]
      a b c
    by simp
qed

subsection \<open>Initialization\<close>

text \<open>
  C5. When the three flags are on and the object is uninitialized, \<open>n > 0\<close> calls of
  \<^verbatim>\<open>initialize\<close> change the life-cycle state exactly once, leave the VM as the first
  call left it, with the state initialized and one more notification of the compilation
  policy. A call made with a flag off, or after initialization, changes nothing.
\<close>

theorem initialize_idempotent:
  "(UseCompiler fl \<and> EnableJVMCI fl \<and> UseJVMCICompiler fl
      \<and> compiler_state (compiler vm) = uninitialized \<and> 0 < n \<longrightarrow>
        transitions n fl vm = 1
        \<and> initialize_times n fl vm = initialize fl vm
        \<and> compiler_state (compiler (initialize_times n fl vm)) = initialized
        \<and> completed_vm_startup_calls (initialize_times n fl vm)
            = completed_vm_startup_calls vm + 1)
   \<and> (\<not> UseCompiler fl \<or> \<not> EnableJVMCI fl \<or> \<not> UseJVMCICompiler fl
        \<or> compiler_state (compiler vm) = initialized \<longrightarrow>
        initialize fl vm = vm \<and> transitions n fl vm = 0)"
proof (intro conjI impI)
  assume a: "UseCompiler fl \<and> EnableJVMCI fl \<and> UseJVMCICompiler fl
      \<and> compiler_state (compiler vm) = uninitialized \<and> 0 < n"
  then obtain m where n: "n = Suc m" by (cases n) auto
  have st: "compiler_state (compiler (initialize fl vm)) = initialized"
    using a by (simp add: initialize_first)
  show "transitions n fl vm = 1"
    using a st by (simp add: n transitions_noop)
  show eq: "initialize_times n fl vm = initialize fl vm"
    using st by (simp add: n initialize_times_noop)
  show "compiler_state (compiler (initialize_times n fl vm)) = initialized"
    using st eq by simp
  show "completed_vm_startup_calls (initialize_times n fl vm)
          = completed_vm_startup_calls vm + 1"
    using a by (simp add: eq initialize_first)
next
  assume "\<not> UseCompiler fl \<or> \<not> EnableJVMCI fl \<or> \<not> UseJVMCICompiler fl
        \<or> compiler_state (compiler vm) = initialized"
  then show "initialize fl vm = vm" "transitions n fl vm = 0"
    by (simp_all add: initialize_noop transitions_noop)
qed

theorem initialize_idempotent_witness:
  "UseCompiler sample_flags \<and> EnableJVMCI sample_flags \<and> UseJVMCICompiler sample_flags
   \<and> compiler_state (compiler sample_vm) = uninitialized \<and> (0::nat) < 3
   \<and> transitions 3 sample_flags sample_vm = 1
   \<and> compiler_state (compiler (initialize_times 3 sample_flags sample_vm)) = initialized
   \<and> completed_vm_startup_calls (initialize_times 3 sample_flags sample_vm) = 1
   \<and> initialize (sample_flags\<lparr>EnableJVMCI := False\<rparr>) sample_vm = sample_vm
   \<and> initialize sample_flags (initialize sample_flags sample_vm)
        = initialize sample_flags sample_vm"
proof -
  have h: "UseCompiler sample_flags \<and> EnableJVMCI sample_flags
      \<and> UseJVMCICompiler sample_flags
      \<and> compiler_state (compiler sample_vm) = uninitialized \<and> (0::nat) < 3"
    by (simp add: sample_flags_def sample_vm_def sample_compiler_def)
  have off: "\<not> EnableJVMCI (sample_flags\<lparr>EnableJVMCI := False\<rparr>)" by simp
  have fin: "compiler_state (compiler (initialize sample_flags sample_vm)) = initialized"
    by (simp add: initialize_def should_perform_init_def set_state_def
        completed_vm_startup_def sample_flags_def sample_vm_def sample_compiler_def)
  have r1: "transitions 3 sample_flags sample_vm = 1
      \<and> compiler_state (compiler (initialize_times 3 sample_flags sample_vm)) = initialized
      \<and> completed_vm_startup_calls (initialize_times 3 sample_flags sample_vm)
          = completed_vm_startup_calls sample_vm + 1"
    using h initialize_idempotent [of sample_flags sample_vm 3] by blast
  have r2: "initialize (sample_flags\<lparr>EnableJVMCI := False\<rparr>) sample_vm = sample_vm"
    using off initialize_idempotent [of "sample_flags\<lparr>EnableJVMCI := False\<rparr>" sample_vm 0]
    by blast
  have r3: "initialize sample_flags (initialize sample_flags sample_vm)
        = initialize sample_flags sample_vm"
    using fin initialize_idempotent [of sample_flags "initialize sample_flags sample_vm" 0]
    by blast
  have z: "completed_vm_startup_calls sample_vm = 0"
    by (simp add: sample_vm_def)
  show ?thesis
    using h r1 r2 r3 z by simp
qed

subsection \<open>The compilation entry point\<close>

text \<open>
  C8. Every call of \<^verbatim>\<open>compile_method\<close> stops the VM as unreachable code; no call
  returns.
\<close>

theorem compile_method_fatal:
  "compile_method env target entry_bci directive = Inl Should_not_reach_here
   \<and> (\<forall>r. compile_method env target entry_bci directive \<noteq> Inr r)"
  by (simp add: compile_method_def ShouldNotReachHere_def)

subsection \<open>Construction\<close>




subsection \<open>Bootstrap\<close>

text \<open>
  C6. The requests that \<^verbatim>\<open>bootstrap\<close> makes to the compile broker are, in the order of
  the method array of \<^verbatim>\<open>java.lang.Object\<close>, one request for each method that is not
  native, not static and not an initializer, and no other request: each for the standard
  entry point, at the level of full optimization, with the method itself as hot method,
  the count 10, which is positive, and the reason Bootstrap. Whenever the call returns
  outside interpreter mode, these are the requests it has added; in interpreter mode it
  returns at once and adds none.
\<close>

theorem bootstrap_submits_object_methods:
  "compile_requests (bootstrap_submit env vm) =
     compile_requests vm @
     map (\<lambda>m. \<lparr> task_method = m, osr_bci = - 1, comp_level = CompLevel_full_optimization,
                hot_method = m, hot_count = 10, compile_reason = Reason_Bootstrap \<rparr>)
       (filter (\<lambda>m. \<not> is_native m \<and> \<not> is_static m \<and> \<not> is_initializer m)
          (Object_klass_methods env))
   \<and> (\<forall>t \<in> set (drop (length (compile_requests vm))
                    (compile_requests (bootstrap_submit env vm))).
        comp_level t = CompLevel_full_optimization \<and> compile_reason t = Reason_Bootstrap
        \<and> 0 <s hot_count t)
   \<and> (mode (flags env) \<noteq> Mode_int \<longrightarrow>
        (\<forall>vm'. bootstrap env vm = Some (Inr vm') \<longrightarrow>
           compile_requests vm' = compile_requests (bootstrap_submit env vm)))
   \<and> (mode (flags env) = Mode_int \<longrightarrow> bootstrap env vm = Some (Inr vm))"
proof (intro conjI impI allI)
  show req: "compile_requests (bootstrap_submit env vm) =
     compile_requests vm @
     map (\<lambda>m. \<lparr> task_method = m, osr_bci = - 1, comp_level = CompLevel_full_optimization,
                hot_method = m, hot_count = 10, compile_reason = Reason_Bootstrap \<rparr>)
       (filter (\<lambda>m. \<not> is_native m \<and> \<not> is_static m \<and> \<not> is_initializer m)
          (Object_klass_methods env))"
    by (simp add: bootstrap_submit_def Let_def submit_loop_requests)
  show "\<forall>t \<in> set (drop (length (compile_requests vm))
                    (compile_requests (bootstrap_submit env vm))).
        comp_level t = CompLevel_full_optimization \<and> compile_reason t = Reason_Bootstrap
        \<and> 0 <s hot_count t"
    by (auto simp add: req word_sless_alt)
next
  fix vm'
  assume "mode (flags env) \<noteq> Mode_int" "bootstrap env vm = Some (Inr vm')"
  from bootstrap_result [OF this]
  show "compile_requests vm' = compile_requests (bootstrap_submit env vm)" by blast
next
  assume "mode (flags env) = Mode_int"
  then show "bootstrap env vm = Some (Inr vm)" by (simp add: bootstrap_def)
qed

theorem bootstrap_submits_object_methods_witness:
  "mode (flags sample_env) \<noteq> Mode_int
   \<and> compile_requests (bootstrap_submit sample_env sample_vm) =
       [\<lparr> task_method = sample_method, osr_bci = - 1,
          comp_level = CompLevel_full_optimization, hot_method = sample_method,
          hot_count = 10, compile_reason = Reason_Bootstrap \<rparr>]
   \<and> (\<exists>vm'. bootstrap sample_env sample_vm = Some (Inr vm')
         \<and> compile_requests vm' = compile_requests (bootstrap_submit sample_env sample_vm))
   \<and> bootstrap (sample_env\<lparr>flags := sample_flags\<lparr>mode := Mode_int\<rparr>\<rparr>) sample_vm
       = Some (Inr sample_vm)"
proof -
  have m: "mode (flags sample_env) \<noteq> Mode_int"
    by (simp add: sample_env_def sample_flags_def)
  have i: "mode (flags (sample_env\<lparr>flags := sample_flags\<lparr>mode := Mode_int\<rparr>\<rparr>)) = Mode_int"
    by simp
  obtain vm' where r: "bootstrap sample_env sample_vm = Some (Inr vm')"
    using m sample_poll
    by (simp add: bootstrap_def bootstrap_finish_def Let_def sample_env_def sample_runtime_def)
  show ?thesis
    using m i r bootstrap_submits_object_methods [of sample_env sample_vm]
      bootstrap_submits_object_methods
        [of "sample_env\<lparr>flags := sample_flags\<lparr>mode := Mode_int\<rparr>\<rparr>" sample_vm]
    by (simp add: sample_env_def sample_vm_def sample_method_def)
qed

text \<open>
  C7. Outside interpreter mode and with a runtime present, when the polling loop ends,
  after a poll that found the queue empty, \<^verbatim>\<open>bootstrap\<close> returns. The object it leaves
  has the bootstrapping flag cleared, and this is the object the notification ran on: the
  flag is cleared before the runtime is notified. An exception of the notification is
  pending on the thread of the caller on return; without one, the thread is as it was.
\<close>

theorem bootstrap_clears_flag_then_notifies:
  assumes "mode (flags env) \<noteq> Mode_int"
    and "java_runtime env = Some runtime"
    and "poll_loop env True 0 0 (bootstrap_submit env vm) = Some (k, vm1)"
  shows "queue_size env CompLevel_full_optimization (k - 1) = 0
     \<and> (\<exists>vm'. bootstrap env vm = Some (Inr vm')
           \<and> compiler vm' = (compiler vm1)\<lparr>bootstrapping := False\<rparr>
           \<and> \<not> bootstrapping (compiler vm')
           \<and> pending_exception vm' =
               (case bootstrap_finished runtime (compiler vm') of
                  None \<Rightarrow> pending_exception vm | Some e \<Rightarrow> Some e))"
proof -
  let ?c0 = "(compiler vm)\<lparr>bootstrapping := True\<rparr>"
  have "compiler (bootstrap_submit env vm) = compiler_after env ?c0 0"
    by (simp add: bootstrap_submit_frame)
  with poll_loop_result [OF assms(3), of ?c0]
  have post: "poll_post ?c0 env True 0 (bootstrap_submit env vm) (k, vm1)" by simp
  then have q: "queue_size env CompLevel_full_optimization (k - 1) = 0"
    and pe: "pending_exception vm1 = pending_exception vm"
    by (simp_all add: poll_post_def bootstrap_submit_frame)
  from bootstrap_finish_result [OF assms(2), of "javaTimeMillis env 0" k vm1]
  obtain vm' where f: "bootstrap_finish env (javaTimeMillis env 0) k vm1 = Inr vm'"
    "compiler vm' = (compiler vm1)\<lparr>bootstrapping := False\<rparr>"
    "pending_exception vm' =
         (case bootstrap_finished runtime ((compiler vm1)\<lparr>bootstrapping := False\<rparr>) of
            None \<Rightarrow> pending_exception vm1 | Some e \<Rightarrow> Some e)"
    by blast
  have "bootstrap env vm = Some (Inr vm')"
    using assms(1,3) f(1) by (simp add: bootstrap_def Let_def)
  moreover have "\<not> bootstrapping (compiler vm')" using f(2) by simp
  moreover have "pending_exception vm' =
               (case bootstrap_finished runtime (compiler vm') of
                  None \<Rightarrow> pending_exception vm | Some e \<Rightarrow> Some e)"
    using f(2,3) pe by (simp split: option.splits)
  ultimately show ?thesis using q f(2) by blast
qed

theorem bootstrap_clears_flag_then_notifies_witness:
  "mode (flags sample_env) \<noteq> Mode_int
   \<and> java_runtime sample_env = Some sample_runtime
   \<and> poll_loop sample_env True 0 0 (bootstrap_submit sample_env sample_vm)
       = Some (4, sample_polled)
   \<and> bootstrap_finished sample_runtime ((compiler sample_polled)\<lparr>bootstrapping := False\<rparr>)
       = Some ''InternalError''
   \<and> (\<exists>vm'. bootstrap sample_env sample_vm = Some (Inr vm')
         \<and> \<not> bootstrapping (compiler vm')
         \<and> pending_exception vm' = Some ''InternalError'')"
proof -
  have m: "mode (flags sample_env) \<noteq> Mode_int"
    by (simp add: sample_env_def sample_flags_def)
  have r: "java_runtime sample_env = Some sample_runtime"
    by (simp add: sample_env_def)
  have n: "bootstrap_finished sample_runtime
      ((compiler sample_polled)\<lparr>bootstrapping := False\<rparr>) = Some ''InternalError''"
    by (simp add: sample_runtime_def)
  show ?thesis
    using m r n sample_poll bootstrap_clears_flag_then_notifies [OF m r sample_poll]
    by auto
qed

text \<open>
  C1, as amended. Outside interpreter mode and with a runtime present, \<^verbatim>\<open>bootstrap\<close>
  returns exactly when some poll finds the flag set or the queue non-empty and that poll
  or a later one finds the queue empty. Without a runtime the loops end under the same
  condition, and the VM stops at the notification instead of returning. In particular,
  when the flag is not set and no thread ever sets it and every poll finds the queue
  empty, the call neither returns nor stops: the inner loop waits until there is
  something in the queue.
\<close>

theorem bootstrap_returns_iff:
  "mode (flags env) \<noteq> Mode_int \<Longrightarrow>
   (java_runtime env \<noteq> None \<longrightarrow>
      ((\<exists>vm'. bootstrap env vm = Some (Inr vm')) =
         (\<exists>k0 k1. k0 \<le> k1
            \<and> (handled_at env (compiler vm) k0
                 \<or> queue_size env CompLevel_full_optimization k0 \<noteq> 0)
            \<and> queue_size env CompLevel_full_optimization k1 = 0)))
   \<and> (java_runtime env = None \<longrightarrow> (\<forall>vm'. bootstrap env vm \<noteq> Some (Inr vm')))
   \<and> ((bootstrap env vm \<noteq> None) =
         (\<exists>k0 k1. k0 \<le> k1
            \<and> (handled_at env (compiler vm) k0
                 \<or> queue_size env CompLevel_full_optimization k0 \<noteq> 0)
            \<and> queue_size env CompLevel_full_optimization k1 = 0))
   \<and> (\<not> bootstrap_compilation_request_handled (compiler vm)
        \<and> (\<forall>k. Set_bootstrap_compilation_request_handled \<notin> set (other_threads env k))
        \<and> (\<forall>k. queue_size env CompLevel_full_optimization k = 0)
        \<longrightarrow> bootstrap env vm = None)"
proof (intro conjI impI allI)
  assume m: "mode (flags env) \<noteq> Mode_int"
  show "(bootstrap env vm \<noteq> None) =
         (\<exists>k0 k1. k0 \<le> k1
            \<and> (handled_at env (compiler vm) k0
                 \<or> queue_size env CompLevel_full_optimization k0 \<noteq> 0)
            \<and> queue_size env CompLevel_full_optimization k1 = 0)"
    using m by (rule bootstrap_return_condition)
  {
    assume "java_runtime env \<noteq> None"
    then obtain runtime where "java_runtime env = Some runtime" by auto
    then show "(\<exists>vm'. bootstrap env vm = Some (Inr vm')) =
         (\<exists>k0 k1. k0 \<le> k1
            \<and> (handled_at env (compiler vm) k0
                 \<or> queue_size env CompLevel_full_optimization k0 \<noteq> 0)
            \<and> queue_size env CompLevel_full_optimization k1 = 0)"
      using bootstrap_returns_with_runtime [OF m, of runtime vm]
        bootstrap_return_condition [OF m, of vm]
      by simp
  }
  {
    fix vm'
    assume "java_runtime env = None"
    then show "bootstrap env vm \<noteq> Some (Inr vm')"
      using m by (auto simp: bootstrap_def bootstrap_finish_def Let_def split: option.splits)
  }
  {
    assume "\<not> bootstrap_compilation_request_handled (compiler vm)
        \<and> (\<forall>k. Set_bootstrap_compilation_request_handled \<notin> set (other_threads env k))
        \<and> (\<forall>k. queue_size env CompLevel_full_optimization k = 0)"
    then show "bootstrap env vm = None"
      using bootstrap_waits_forever [OF m, of vm] by blast
  }
qed

theorem bootstrap_returns_iff_witness:
  "mode (flags sample_env) \<noteq> Mode_int
   \<and> java_runtime sample_env \<noteq> None
   \<and> queue_size sample_env CompLevel_full_optimization 1 \<noteq> 0
   \<and> queue_size sample_env CompLevel_full_optimization 3 = 0
   \<and> (\<exists>vm'. bootstrap sample_env sample_vm = Some (Inr vm'))
   \<and> bootstrap (sample_env\<lparr>java_runtime := None\<rparr>) sample_vm \<noteq> None
   \<and> bootstrap (sample_env\<lparr>queue_size := (\<lambda>lvl k. 0), other_threads := (\<lambda>k. [])\<rparr>)
        sample_vm = None"
proof -
  let ?quiet = "sample_env\<lparr>queue_size := (\<lambda>lvl k. 0), other_threads := (\<lambda>k. [])\<rparr>"
  let ?bare = "sample_env\<lparr>java_runtime := None\<rparr>"
  have m: "mode (flags sample_env) \<noteq> Mode_int"
    by (simp add: sample_env_def sample_flags_def)
  have m': "mode (flags ?quiet) \<noteq> Mode_int"
    by (simp add: sample_env_def sample_flags_def)
  have m'': "mode (flags ?bare) \<noteq> Mode_int"
    by (simp add: sample_env_def sample_flags_def)
  have r: "java_runtime sample_env \<noteq> None"
    by (simp add: sample_env_def)
  have q: "queue_size sample_env CompLevel_full_optimization 1 \<noteq> 0"
    "queue_size sample_env CompLevel_full_optimization 3 = 0"
    by (simp_all add: sample_env_def)
  have c: "\<exists>k0 k1. k0 \<le> k1
         \<and> (handled_at sample_env (compiler sample_vm) k0
              \<or> queue_size sample_env CompLevel_full_optimization k0 \<noteq> 0)
         \<and> queue_size sample_env CompLevel_full_optimization k1 = 0"
    using q by (intro exI [of _ 1] exI [of _ 3]) simp
  have a: "\<exists>vm'. bootstrap sample_env sample_vm = Some (Inr vm')"
    using bootstrap_returns_iff [OF m, of sample_vm] r c by blast
  have c': "\<exists>k0 k1. k0 \<le> k1
         \<and> (handled_at ?bare (compiler sample_vm) k0
              \<or> queue_size ?bare CompLevel_full_optimization k0 \<noteq> 0)
         \<and> queue_size ?bare CompLevel_full_optimization k1 = 0"
    using q by (intro exI [of _ 1] exI [of _ 3]) simp
  have d: "bootstrap ?bare sample_vm \<noteq> None"
    using bootstrap_returns_iff [OF m'', of sample_vm] c' by blast
  have "\<not> bootstrap_compilation_request_handled (compiler sample_vm)
        \<and> (\<forall>k. Set_bootstrap_compilation_request_handled \<notin> set (other_threads ?quiet k))
        \<and> (\<forall>k. queue_size ?quiet CompLevel_full_optimization k = 0)"
    by (simp add: sample_vm_def sample_compiler_def)
  then have b: "bootstrap ?quiet sample_vm = None"
    using bootstrap_returns_iff [OF m', of sample_vm] by blast
  show ?thesis
    using m r q a b d by simp
qed

text \<open>
  The claim as stated fails in the idle run: no request is submitted, and the call does
  not return.
\<close>

theorem bootstrap_idle_counterexample:
  "compile_requests (bootstrap_submit idle_env sample_vm) = []
   \<and> bootstrap idle_env sample_vm = None"
proof -
  have "bootstrap idle_env sample_vm = None"
    by (rule bootstrap_waits_forever)
       (simp_all add: idle_env_def sample_flags_def sample_vm_def sample_compiler_def)
  moreover have "compile_requests (bootstrap_submit idle_env sample_vm) = []"
    by (simp add: submit_loop_requests bootstrap_submit_def Let_def idle_env_def sample_vm_def)
  ultimately show ?thesis by simp
qed

subsection \<open>Counters\<close>

text \<open>
  C9, as amended. \<^verbatim>\<open>inc_methods_compiled\<close> adds one to both counters and
  \<^verbatim>\<open>inc_global_compilation_ticks\<close> adds one to the second counter and leaves the first
  as it is, in the arithmetic of a 32-bit \<^verbatim>\<open>int\<close>: a counter that is not the largest
  \<^verbatim>\<open>int\<close> grows by exactly one. \<^verbatim>\<open>initialize\<close> writes neither counter, and neither does
  \<^verbatim>\<open>bootstrap\<close>: on return the counters are what the compiler threads made of them
  during the sleeps.
\<close>

theorem counters_increment:
  "methods_compiled (inc_methods_compiled c) = methods_compiled c + 1
   \<and> global_compilation_ticks (inc_methods_compiled c) = global_compilation_ticks c + 1
   \<and> methods_compiled (inc_global_compilation_ticks c) = methods_compiled c
   \<and> global_compilation_ticks (inc_global_compilation_ticks c)
       = global_compilation_ticks c + 1
   \<and> (sint (methods_compiled c) \<noteq> 2 ^ 31 - 1 \<longrightarrow>
        sint (methods_compiled (inc_methods_compiled c)) = sint (methods_compiled c) + 1)
   \<and> (sint (global_compilation_ticks c) \<noteq> 2 ^ 31 - 1 \<longrightarrow>
        sint (global_compilation_ticks (inc_methods_compiled c))
          = sint (global_compilation_ticks c) + 1
        \<and> sint (global_compilation_ticks (inc_global_compilation_ticks c))
          = sint (global_compilation_ticks c) + 1)
   \<and> methods_compiled (compiler (initialize fl vm)) = methods_compiled (compiler vm)
   \<and> global_compilation_ticks (compiler (initialize fl vm))
       = global_compilation_ticks (compiler vm)
   \<and> (mode (flags env) = Mode_int \<and> bootstrap env vm = Some (Inr vm') \<longrightarrow> vm' = vm)
   \<and> (mode (flags env) \<noteq> Mode_int \<and> bootstrap env vm = Some (Inr vm') \<longrightarrow>
        (\<exists>k vm1. poll_loop env True 0 0 (bootstrap_submit env vm) = Some (k, vm1)
            \<and> methods_compiled (compiler vm')
               = methods_compiled (compiler_after env (compiler vm) k)
            \<and> global_compilation_ticks (compiler vm')
               = global_compilation_ticks (compiler_after env (compiler vm) k)))"
proof (intro conjI impI)
  show "methods_compiled (inc_methods_compiled c) = methods_compiled c + 1"
    "global_compilation_ticks (inc_methods_compiled c) = global_compilation_ticks c + 1"
    by (simp_all add: inc_methods_compiled_def)
  show "methods_compiled (inc_global_compilation_ticks c) = methods_compiled c"
    "global_compilation_ticks (inc_global_compilation_ticks c)
       = global_compilation_ticks c + 1"
    by (simp_all add: inc_global_compilation_ticks_def)
  show "methods_compiled (compiler (initialize fl vm)) = methods_compiled (compiler vm)"
    "global_compilation_ticks (compiler (initialize fl vm))
       = global_compilation_ticks (compiler vm)"
    by (simp_all add: initialize_def set_state_def completed_vm_startup_def)
next
  assume "sint (methods_compiled c) \<noteq> 2 ^ 31 - 1"
  then show "sint (methods_compiled (inc_methods_compiled c)) = sint (methods_compiled c) + 1"
    by (simp add: inc_methods_compiled_def sint_inc)
next
  assume a: "sint (global_compilation_ticks c) \<noteq> 2 ^ 31 - 1"
  then show "sint (global_compilation_ticks (inc_methods_compiled c))
          = sint (global_compilation_ticks c) + 1"
    by (simp add: inc_methods_compiled_def sint_inc)
  from a show "sint (global_compilation_ticks (inc_global_compilation_ticks c))
          = sint (global_compilation_ticks c) + 1"
    by (simp add: inc_global_compilation_ticks_def sint_inc)
next
  assume "mode (flags env) = Mode_int \<and> bootstrap env vm = Some (Inr vm')"
  then show "vm' = vm" by (auto simp add: bootstrap_def)
next
  assume "mode (flags env) \<noteq> Mode_int \<and> bootstrap env vm = Some (Inr vm')"
  then have m: "mode (flags env) \<noteq> Mode_int" and b: "bootstrap env vm = Some (Inr vm')"
    by simp_all
  from bootstrap_result [OF m b] obtain k vm1 where
    "poll_loop env True 0 0 (bootstrap_submit env vm) = Some (k, vm1)"
    "compiler vm' = (compiler_after env (compiler vm) k)\<lparr>bootstrapping := False\<rparr>"
    by blast
  then show "\<exists>k vm1. poll_loop env True 0 0 (bootstrap_submit env vm) = Some (k, vm1)
            \<and> methods_compiled (compiler vm')
               = methods_compiled (compiler_after env (compiler vm) k)
            \<and> global_compilation_ticks (compiler vm')
               = global_compilation_ticks (compiler_after env (compiler vm) k)"
    by (intro exI [of _ k] exI [of _ vm1]) simp
qed

theorem counters_increment_witness:
  "sint (methods_compiled sample_compiler) \<noteq> 2 ^ 31 - 1
   \<and> sint (global_compilation_ticks sample_compiler) \<noteq> 2 ^ 31 - 1
   \<and> methods_compiled (inc_methods_compiled sample_compiler) = 1
   \<and> global_compilation_ticks (inc_methods_compiled sample_compiler) = 1
   \<and> methods_compiled (inc_global_compilation_ticks sample_compiler) = 0
   \<and> global_compilation_ticks (inc_global_compilation_ticks sample_compiler) = 1
   \<and> sint (methods_compiled (inc_methods_compiled sample_compiler)) = 1
   \<and> mode (flags sample_env) \<noteq> Mode_int
   \<and> poll_loop sample_env True 0 0 (bootstrap_submit sample_env sample_vm)
       = Some (4, sample_polled)
   \<and> methods_compiled (compiler_after sample_env (compiler sample_vm) 4) = 121
   \<and> global_compilation_ticks (compiler_after sample_env (compiler sample_vm) 4) = 122
   \<and> (\<exists>vm'. bootstrap sample_env sample_vm = Some (Inr vm')
         \<and> methods_compiled (compiler vm') = 121
         \<and> global_compilation_ticks (compiler vm') = 122)"
proof -
  let ?vm' = "sample_polled\<lparr>compiler := (compiler sample_polled)\<lparr>bootstrapping := False\<rparr>,
          tty := tty sample_polled @ [Print_summary 400 121],
          pending_exception := Some ''InternalError''\<rparr>"
  have h: "sint (methods_compiled sample_compiler) \<noteq> 2 ^ 31 - 1"
    "sint (global_compilation_ticks sample_compiler) \<noteq> 2 ^ 31 - 1"
    by (simp_all add: sample_compiler_def)
  have z: "methods_compiled sample_compiler = 0" "global_compilation_ticks sample_compiler = 0"
    by (simp_all add: sample_compiler_def)
  have m: "mode (flags sample_env) \<noteq> Mode_int"
    by (simp add: sample_env_def sample_flags_def)
  have b: "bootstrap sample_env sample_vm = Some (Inr ?vm')"
    using sample_poll
    by (simp add: bootstrap_def bootstrap_finish_def Let_def sample_env_def sample_flags_def
        sample_runtime_def sample_polled_def)
  have "\<exists>k vm1. poll_loop sample_env True 0 0 (bootstrap_submit sample_env sample_vm)
            = Some (k, vm1)
          \<and> methods_compiled (compiler ?vm')
               = methods_compiled (compiler_after sample_env (compiler sample_vm) k)
          \<and> global_compilation_ticks (compiler ?vm')
               = global_compilation_ticks (compiler_after sample_env (compiler sample_vm) k)"
    using m b counters_increment [of sample_compiler sample_flags sample_vm sample_env ?vm']
    by blast
  then have after: "methods_compiled (compiler_after sample_env (compiler sample_vm) 4) = 121"
    "global_compilation_ticks (compiler_after sample_env (compiler sample_vm) 4) = 122"
    using sample_poll by (auto simp add: sample_polled_def)
  have inc: "methods_compiled (inc_methods_compiled sample_compiler) = 1"
    "global_compilation_ticks (inc_methods_compiled sample_compiler) = 1"
    "methods_compiled (inc_global_compilation_ticks sample_compiler) = 0"
    "global_compilation_ticks (inc_global_compilation_ticks sample_compiler) = 1"
    "sint (methods_compiled (inc_methods_compiled sample_compiler)) = 1"
    using h z counters_increment [of sample_compiler sample_flags sample_vm sample_env ?vm']
    by simp_all
  have "methods_compiled (compiler ?vm') = 121" "global_compilation_ticks (compiler ?vm') = 122"
    by (simp_all add: sample_polled_def)
  then have "\<exists>vm'. bootstrap sample_env sample_vm = Some (Inr vm')
         \<and> methods_compiled (compiler vm') = 121
         \<and> global_compilation_ticks (compiler vm') = 122"
    using b by blast
  then show ?thesis
    using h m sample_poll after inc by simp
qed

text \<open>
  The claim as stated fails where the addition wraps around: read as an \<^verbatim>\<open>int\<close>, the
  first counter of the object below falls from the largest to the smallest value; read
  as an \<^verbatim>\<open>unsigned int\<close>, its second counter falls to zero.
\<close>

theorem counters_wrap_counterexample:
  "sint (methods_compiled (inc_methods_compiled overflow_compiler))
     < sint (methods_compiled overflow_compiler)
   \<and> unat (global_compilation_ticks (inc_methods_compiled overflow_compiler))
     < unat (global_compilation_ticks overflow_compiler)"
  by (simp add: inc_methods_compiled_def overflow_compiler_def)

end
